theory Spec2Isabelle
  imports Main "HOL-Library.Word"
begin

section \<open>A shallow embedding of \<open>http_server.c\<close>\<close>

text \<open>
  Conventions of the embedding.
  \<^item> A \<open>const char*\<close> argument is a \<open>string\<close>: the bytes before the terminating NUL.
  \<^item> \<open>int\<close> is \<open>32 word\<close> read by \<open>sint\<close>, \<open>size_t\<close> is \<open>64 word\<close>.
  \<^item> \<open>strcmp(a, b) == 0\<close> is \<open>a = b\<close>: a bytewise, case-sensitive comparison.
  \<^item> What a function writes to the client socket is returned as the list of its
    \<open>write\<close> calls, each with the bytes it passes; \<open>write\<close> is taken to transmit all of them.
  \<^item> An execution that leaves the defined behaviour of C (a write past the end of an
    array, a read of bytes never written) is the value \<open>Inl\<close> of a \<open>fault\<close>.
\<close>

subsection \<open>Characters and constants\<close>

definition NUL :: char where
  "NUL = CHR 0x00"

definition CR :: char where
  "CR = CHR 0x0D"

definition LF :: char where
  "LF = CHR 0x0A"

definition CRLF :: string where
  "CRLF = [CR, LF]"

definition BUFFER_SIZE :: nat where
  "BUFFER_SIZE = 8192"

datatype fault = BufferOverflow | UninitialisedRead | OutOfBoundsRead

subsection \<open>\<open>get_content_type\<close> (lines 39-58)\<close>

text \<open>\<open>strrchr(s, c)\<close>: the suffix of \<open>s\<close> that starts at the last \<open>c\<close>, or \<open>None\<close> for NULL.\<close>

fun strrchr :: "string \<Rightarrow> char \<Rightarrow> string option" where
  "strrchr [] c = None"
| "strrchr (x # xs) c =
     (case strrchr xs c of
        Some r \<Rightarrow> Some r
      | None \<Rightarrow> (if x = c then Some (x # xs) else None))"

definition get_content_type :: "string \<Rightarrow> string" where
  "get_content_type filepath =
     (case strrchr filepath (CHR ''.'') of
        None \<Rightarrow> ''text/plain''
      | Some dot \<Rightarrow>
          if dot = ''.html'' then ''text/html''
          else if dot = ''.css'' then ''text/css''
          else if dot = ''.js'' then ''application/javascript''
          else if dot = ''.json'' then ''application/json''
          else if dot = ''.png'' then ''image/png''
          else if dot = ''.jpg'' \<or> dot = ''.jpeg'' then ''image/jpeg''
          else if dot = ''.gif'' then ''image/gif''
          else if dot = ''.svg'' then ''image/svg+xml''
          else ''text/plain'')"

text \<open>
  The MIME table as the specification words it, and the substring of a path from its
  last dot onward.
\<close>

definition mime_table :: "(string \<times> string) list" where
  "mime_table =
     [(''.html'', ''text/html''), (''.css'', ''text/css''),
      (''.js'', ''application/javascript''), (''.json'', ''application/json''),
      (''.png'', ''image/png''), (''.jpg'', ''image/jpeg''), (''.jpeg'', ''image/jpeg''),
      (''.gif'', ''image/gif''), (''.svg'', ''image/svg+xml'')]"

definition from_last_dot :: "string \<Rightarrow> string" where
  "from_last_dot p = CHR ''.'' # rev (takeWhile (\<lambda>c. c \<noteq> CHR ''.'') (rev p))"

definition mime_spec :: "string \<Rightarrow> string" where
  "mime_spec p =
     (if CHR ''.'' \<in> set p
      then (case map_of mime_table (from_last_dot p) of
              Some t \<Rightarrow> t
            | None \<Rightarrow> ''text/plain'')
      else ''text/plain'')"

subsection \<open>Formatted output: \<open>%d\<close>, \<open>%s\<close>, \<open>%zu\<close>\<close>

definition digit :: "nat \<Rightarrow> char" where
  "digit d = ''0123456789'' ! d"

function dec :: "nat \<Rightarrow> string" where
  "dec n = (if n < 10 then [digit n] else dec (n div 10) @ [digit (n mod 10)])"
  by pat_completeness auto
termination
  by (relation "measure id") auto

declare dec.simps [simp del]

text \<open>\<open>%d\<close> of an \<open>int\<close> and \<open>%zu\<close> of a \<open>size_t\<close>.\<close>

definition fmt_d :: "32 word \<Rightarrow> string" where
  "fmt_d i = (if sint i < 0 then CHR ''-'' # dec (nat (- sint i)) else dec (nat (sint i)))"

definition fmt_zu :: "64 word \<Rightarrow> string" where
  "fmt_zu n = dec (unat n)"

datatype arg = IntArg "32 word" | StrArg string | SizeArg "64 word"

datatype fstate = Plain | Percent | PercentZ

text \<open>
  The output of a \<open>printf\<close>-style format string on its arguments, for the three
  conversions the program uses. An argument that does not match its conversion ends the
  output (the program's one format string matches its arguments).
\<close>

fun vformat :: "fstate \<Rightarrow> string \<Rightarrow> arg list \<Rightarrow> string" where
  "vformat st [] args = []"
| "vformat Plain (c # fs) args =
     (if c = CHR ''%'' then vformat Percent fs args else c # vformat Plain fs args)"
| "vformat Percent (c # fs) args =
     (if c = CHR ''d'' then
        (case args of IntArg i # as \<Rightarrow> fmt_d i @ vformat Plain fs as | _ \<Rightarrow> [])
      else if c = CHR ''s'' then
        (case args of StrArg s # as \<Rightarrow> s @ vformat Plain fs as | _ \<Rightarrow> [])
      else if c = CHR ''z'' then vformat PercentZ fs args
      else [])"
| "vformat PercentZ (c # fs) args =
     (if c = CHR ''u'' then
        (case args of SizeArg n # as \<Rightarrow> fmt_zu n @ vformat Plain fs as | _ \<Rightarrow> [])
      else [])"

text \<open>
  \<open>snprintf(buf, sz, fmt, ...)\<close>: the bytes it stores at the start of \<open>buf\<close> (at most
  \<open>sz - 1\<close> of the output, then NUL) and its return value, the length of the whole
  output.
\<close>

definition snprintf :: "nat \<Rightarrow> string \<Rightarrow> arg list \<Rightarrow> string \<times> nat" where
  "snprintf sz fmt args =
     (let full = vformat Plain fmt args in (take (sz - 1) full @ [NUL], length full))"

text \<open>
  \<open>write(fd, buf, n)\<close> on a buffer of which the bytes \<open>buf\<close> are defined: it transmits
  the first \<open>n\<close> of them; asking for more reads outside what the program has stored.
\<close>

definition write_bytes :: "string \<Rightarrow> nat \<Rightarrow> fault + string" where
  "write_bytes buf n = (if n \<le> length buf then Inr (take n buf) else Inl OutOfBoundsRead)"

subsection \<open>\<open>send_response\<close> (lines 72-98)\<close>

text \<open>The \<open>body\<close> pointer is \<open>None\<close> when NULL, else the bytes of the block it points to.\<close>

definition header_format :: string where
  "header_format =
     ''HTTP/1.1 %d %s'' @ CRLF @
     ''Content-Type: %s'' @ CRLF @
     ''Content-Length: %zu'' @ CRLF @
     ''Connection: close'' @ CRLF @
     CRLF"

definition send_response ::
    "32 word \<Rightarrow> string \<Rightarrow> string \<Rightarrow> string option \<Rightarrow> 64 word \<Rightarrow> fault + string list" where
  "send_response status_code status_text content_type body body_length =
     (let (header, header_length) =
            snprintf BUFFER_SIZE header_format
              [IntArg status_code, StrArg status_text, StrArg content_type, SizeArg body_length]
      in case write_bytes header header_length of
           Inl f \<Rightarrow> Inl f
         | Inr w1 \<Rightarrow>
             (case body of
                None \<Rightarrow> Inr [w1]
              | Some b \<Rightarrow>
                  if 0 < body_length then
                    (case write_bytes b (unat body_length) of
                       Inl f \<Rightarrow> Inl f
                     | Inr w2 \<Rightarrow> Inr [w1, w2])
                  else Inr [w1]))"

subsection \<open>\<open>send_file\<close> (lines 108-152)\<close>

text \<open>
  The environment of one call: what \<open>stat\<close>, \<open>fopen\<close> and \<open>malloc\<close> answer.
  \<^item> \<open>stat env p\<close> is \<open>Some st_size\<close> when \<open>stat\<close> returns 0, \<open>None\<close> when it returns -1.
  \<^item> \<open>fopen env p\<close> is \<open>Some bs\<close> when the stream opens, \<open>bs\<close> being the bytes it will
    deliver to reads, \<open>None\<close> when \<open>fopen\<close> returns NULL.
  \<^item> \<open>malloc env n\<close> is \<open>None\<close> for NULL, else \<open>Some g\<close>: a fresh block of \<open>n\<close> bytes
    whose indeterminate initial contents are \<open>g 0, g 1, ...\<close>.
\<close>

record env =
  stat :: "string \<Rightarrow> 64 word option"
  fopen :: "string \<Rightarrow> string option"
  malloc :: "64 word \<Rightarrow> (nat \<Rightarrow> char) option"

definition fresh_block :: "(nat \<Rightarrow> char) \<Rightarrow> 64 word \<Rightarrow> string" where
  "fresh_block g n = map g [0..<unat n]"

text \<open>
  \<open>fread(buf, 1, n, file)\<close>: the block after the call. The bytes the stream delivers, at
  most \<open>n\<close>, overwrite the start of the block; the rest keeps what it held. The return
  value is not used by the program.
\<close>

definition fread :: "string \<Rightarrow> 64 word \<Rightarrow> string \<Rightarrow> string" where
  "fread buf n file = (let got = take (unat n) file in got @ drop (length got) buf)"

definition strlen :: "string \<Rightarrow> 64 word" where
  "strlen s = of_nat (length s)"

definition not_found :: string where
  "not_found = ''<html><body><h1>404 Not Found</h1></body></html>''"

definition error_page :: string where
  "error_page = ''<html><body><h1>500 Internal Server Error</h1></body></html>''"

definition not_implemented :: string where
  "not_implemented = ''<html><body><h1>501 Not Implemented</h1></body></html>''"

definition send_file :: "env \<Rightarrow> string \<Rightarrow> fault + string list" where
  "send_file env filepath =
     (case stat env filepath of
        None \<Rightarrow>
          send_response 404 ''Not Found'' ''text/html'' (Some not_found) (strlen not_found)
      | Some st_size \<Rightarrow>
          (case fopen env filepath of
             None \<Rightarrow>
               send_response 500 ''Internal Server Error'' ''text/html''
                 (Some error_page) (strlen error_page)
           | Some file \<Rightarrow>
               (case malloc env st_size of
                  None \<Rightarrow>
                    send_response 500 ''Internal Server Error'' ''text/html''
                      (Some error_page) (strlen error_page)
                | Some g \<Rightarrow>
                    let file_content = fread (fresh_block g st_size) st_size file;
                        content_type = get_content_type filepath
                    in send_response 200 ''OK'' content_type (Some file_content) st_size)))"

subsection \<open>\<open>handle_request\<close> (lines 162-194)\<close>

text \<open>\<open>isspace\<close> in the C locale: space, \<open>\t\<close>, \<open>\n\<close>, \<open>\v\<close>, \<open>\f\<close>, \<open>\r\<close>.\<close>

definition isspace :: "char \<Rightarrow> bool" where
  "isspace c \<longleftrightarrow>
     c = CHR 0x20 \<or> c = CHR 0x09 \<or> c = CHR 0x0A \<or> c = CHR 0x0B \<or> c = CHR 0x0C \<or> c = CHR 0x0D"

text \<open>The string a \<open>char*\<close> into a byte buffer denotes: the bytes before the first NUL.\<close>

definition c_str :: "string \<Rightarrow> string" where
  "c_str buf = takeWhile (\<lambda>c. c \<noteq> NUL) buf"

text \<open>
  One \<open>%s\<close> conversion of \<open>sscanf\<close> into a \<open>char[cap]\<close>: white space is skipped, then
  the longest run of non-white-space bytes is stored, followed by NUL, with no bound
  check. \<open>Inr None\<close> is the input failure at the end of the string; otherwise the token
  stored and the input left.
\<close>

definition scan_s :: "nat \<Rightarrow> string \<Rightarrow> fault + (string \<times> string) option" where
  "scan_s cap inp =
     (let inp' = dropWhile isspace inp in
      if inp' = [] then Inr None
      else
        let tok = takeWhile (\<lambda>c. \<not> isspace c) inp';
            rest = dropWhile (\<lambda>c. \<not> isspace c) inp'
        in if cap < length tok + 1 then Inl BufferOverflow else Inr (Some (tok, rest)))"

text \<open>
  \<open>sscanf(request, "%s %s %s", method, path, protocol)\<close> with \<open>char method[16]\<close>,
  \<open>char path[256]\<close>, \<open>char protocol[16]\<close>. An array the call did not reach stays
  uninitialised: \<open>None\<close>.
\<close>

definition sscanf_request ::
    "string \<Rightarrow> fault + (string option \<times> string option \<times> string option)" where
  "sscanf_request request =
     (case scan_s 16 (c_str request) of
        Inl f \<Rightarrow> Inl f
      | Inr None \<Rightarrow> Inr (None, None, None)
      | Inr (Some (method, r1)) \<Rightarrow>
          (case scan_s 256 r1 of
             Inl f \<Rightarrow> Inl f
           | Inr None \<Rightarrow> Inr (Some method, None, None)
           | Inr (Some (path, r2)) \<Rightarrow>
               (case scan_s 16 r2 of
                  Inl f \<Rightarrow> Inl f
                | Inr None \<Rightarrow> Inr (Some method, Some path, None)
                | Inr (Some (protocol, r3)) \<Rightarrow> Inr (Some method, Some path, Some protocol))))"

text \<open>\<open>strcat(dest, src)\<close> into a \<open>char[cap]\<close> holding the string \<open>dest\<close>.\<close>

definition strcat :: "nat \<Rightarrow> string \<Rightarrow> string \<Rightarrow> fault + string" where
  "strcat cap dest src =
     (if cap < length dest + length src + 1 then Inl BufferOverflow else Inr (dest @ src))"

text \<open>Lines 181-190: \<open>char filepath[512] = "."\<close> and the two \<open>strcat\<close> branches.\<close>

definition build_filepath :: "string \<Rightarrow> fault + string" where
  "build_filepath path =
     (let filepath = ''.'' in
      if path = ''/'' then strcat 512 filepath ''/index.html''
      else strcat 512 filepath path)"

text \<open>
  The \<open>printf\<close> of line 171 reads all three arrays, so an array that \<open>sscanf\<close> left
  uninitialised is read there. Its output goes to the standard output, not to the client.
\<close>

definition handle_request :: "env \<Rightarrow> string \<Rightarrow> fault + string list" where
  "handle_request env request =
     (case sscanf_request request of
        Inl f \<Rightarrow> Inl f
      | Inr (Some method, Some path, Some protocol) \<Rightarrow>
          if method \<noteq> ''GET'' then
            send_response 501 ''Not Implemented'' ''text/html''
              (Some not_implemented) (strlen not_implemented)
          else
            (case build_filepath path of
               Inl f \<Rightarrow> Inl f
             | Inr filepath \<Rightarrow> send_file env filepath)
      | Inr _ \<Rightarrow> Inl UninitialisedRead)"

subsection \<open>The calls of a run\<close>

text \<open>
  The same two functions once more, each now returning, beside what it writes, the calls
  it makes on strings, files and memory, in program order: \<open>strcat\<close> (lines 186 and
  189), \<open>stat\<close>, \<open>fopen\<close>, \<open>malloc\<close>, \<open>fread\<close>, \<open>fclose\<close> and \<open>free\<close> (lines
  111-151). A run that returns before a call does not list it.
\<close>

datatype call = Strcat string | Stat string | Fopen string | Malloc "64 word"
  | Fread "64 word" | Fclose | Free

definition send_file_run :: "env \<Rightarrow> string \<Rightarrow> call list \<times> (fault + string list)" where
  "send_file_run env filepath =
     (case stat env filepath of
        None \<Rightarrow>
          ([Stat filepath],
           send_response 404 ''Not Found'' ''text/html'' (Some not_found) (strlen not_found))
      | Some st_size \<Rightarrow>
          (case fopen env filepath of
             None \<Rightarrow>
               ([Stat filepath, Fopen filepath],
                send_response 500 ''Internal Server Error'' ''text/html''
                  (Some error_page) (strlen error_page))
           | Some file \<Rightarrow>
               (case malloc env st_size of
                  None \<Rightarrow>
                    ([Stat filepath, Fopen filepath, Malloc st_size, Fclose],
                     send_response 500 ''Internal Server Error'' ''text/html''
                       (Some error_page) (strlen error_page))
                | Some g \<Rightarrow>
                    let file_content = fread (fresh_block g st_size) st_size file;
                        content_type = get_content_type filepath
                    in ([Stat filepath, Fopen filepath, Malloc st_size, Fread st_size, Fclose, Free],
                        send_response 200 ''OK'' content_type (Some file_content) st_size))))"

definition handle_request_run :: "env \<Rightarrow> string \<Rightarrow> call list \<times> (fault + string list)" where
  "handle_request_run env request =
     (case sscanf_request request of
        Inl f \<Rightarrow> ([], Inl f)
      | Inr (Some method, Some path, Some protocol) \<Rightarrow>
          if method \<noteq> ''GET'' then
            ([],
             send_response 501 ''Not Implemented'' ''text/html''
               (Some not_implemented) (strlen not_implemented))
          else
            (case build_filepath path of
               Inl f \<Rightarrow> ([Strcat (if path = ''/'' then ''/index.html'' else path)], Inl f)
             | Inr filepath \<Rightarrow>
                 (Strcat (if path = ''/'' then ''/index.html'' else path)
                    # fst (send_file_run env filepath),
                  snd (send_file_run env filepath)))
      | Inr _ \<Rightarrow> ([], Inl UninitialisedRead))"

subsection \<open>Observations on what is written\<close>

text \<open>
  The header block as the specification gives it, and the two writes of a response that
  carries \<open>body\<close>: the header block announcing its length, then the body when it is
  not empty.
\<close>

definition header_block :: "32 word \<Rightarrow> string \<Rightarrow> string \<Rightarrow> 64 word \<Rightarrow> string" where
  "header_block code reason ctype n =
     ''HTTP/1.1 '' @ fmt_d code @ '' '' @ reason @ CRLF @
     ''Content-Type: '' @ ctype @ CRLF @
     ''Content-Length: '' @ fmt_zu n @ CRLF @
     ''Connection: close'' @ CRLF @
     CRLF"

definition http_response :: "32 word \<Rightarrow> string \<Rightarrow> string \<Rightarrow> string \<Rightarrow> string list" where
  "http_response code reason ctype body =
     header_block code reason ctype (of_nat (length body)) # (if body = [] then [] else [body])"

text \<open>Reading a decimal number back, as a client reads the \<open>Content-Length\<close> field.\<close>

definition isdigit :: "char \<Rightarrow> bool" where
  "isdigit c \<longleftrightarrow> c \<in> set ''0123456789''"

definition dec_value :: "string \<Rightarrow> nat" where
  "dec_value ds = foldl (\<lambda>a c. 10 * a + (of_char c - 48)) 0 ds"

text \<open>
  The white-space-delimited tokens of a string, as the specification speaks of them:
  one pass over the bytes, \<open>cur\<close> holding the token being read.
\<close>

fun split_ws :: "string \<Rightarrow> string \<Rightarrow> string list" where
  "split_ws cur [] = (if cur = [] then [] else [cur])"
| "split_ws cur (c # cs) =
     (if isspace c then (if cur = [] then split_ws [] cs else cur # split_ws [] cs)
      else split_ws (cur @ [c]) cs)"

definition ws_tokens :: "string \<Rightarrow> string list" where
  "ws_tokens s = split_ws [] s"

subsection \<open>Sample environments\<close>

text \<open>
  A document root with \<open>index.html\<close> (three bytes), \<open>logo.png\<close> (three bytes, not
  text), \<open>empty.txt\<close> (no bytes), \<open>secret.txt\<close> (present, but it cannot be opened) and
  the directory \<open>docs\<close>, which \<open>stat\<close> reports with a size and \<open>fopen\<close> opens, and
  whose stream delivers nothing. Fresh blocks hold the byte \<open>X\<close>.
\<close>

definition stale :: "nat \<Rightarrow> char" where
  "stale i = CHR ''X''"

definition sample_env :: env where
  "sample_env =
     \<lparr> stat = [''./index.html'' \<mapsto> 3, ''./logo.png'' \<mapsto> 3, ''./empty.txt'' \<mapsto> 0,
               ''./secret.txt'' \<mapsto> 5, ''./docs'' \<mapsto> 4],
       fopen = [''./index.html'' \<mapsto> ''abc'', ''./logo.png'' \<mapsto> [CHR 0x00, CHR 0xFF, CHR 0x0A],
                ''./empty.txt'' \<mapsto> [], ''./docs'' \<mapsto> []],
       malloc = (\<lambda>n. Some stale) \<rparr>"

text \<open>The same document root when no block can be allocated: \<open>malloc\<close> returns NULL.\<close>

definition no_memory_env :: env where
  "no_memory_env = sample_env\<lparr>malloc := (\<lambda>n. None)\<rparr>"

section \<open>Properties\<close>

subsection \<open>The MIME resolver\<close>

lemma strrchr_None: "strrchr s c = None \<longleftrightarrow> c \<notin> set s"
  by (induction s) (auto split: option.splits)

lemma strrchr_append_last:
  "c \<notin> set suf \<Longrightarrow> strrchr (pre @ c # suf) c = Some (c # suf)"
proof (induction pre)
  case Nil
  then show ?case
    using strrchr_None [of suf c] by simp
next
  case (Cons a pre)
  then show ?case by simp
qed

lemma split_at_last:
  assumes "c \<in> set p"
  shows "p = rev (tl (dropWhile (\<lambda>x. x \<noteq> c) (rev p))) @ c # rev (takeWhile (\<lambda>x. x \<noteq> c) (rev p))"
proof -
  let ?r = "rev p"
  from assms have "c \<in> set ?r" by simp
  then have ne: "dropWhile (\<lambda>x. x \<noteq> c) ?r \<noteq> []"
    by auto
  then have "hd (dropWhile (\<lambda>x. x \<noteq> c) ?r) = c"
    using hd_dropWhile [of "\<lambda>x. x \<noteq> c" ?r] by simp
  with ne have d: "dropWhile (\<lambda>x. x \<noteq> c) ?r = c # tl (dropWhile (\<lambda>x. x \<noteq> c) ?r)"
    by (cases "dropWhile (\<lambda>x. x \<noteq> c) ?r") simp_all
  have "?r = takeWhile (\<lambda>x. x \<noteq> c) ?r @ dropWhile (\<lambda>x. x \<noteq> c) ?r"
    by simp
  then have "?r = takeWhile (\<lambda>x. x \<noteq> c) ?r @ c # tl (dropWhile (\<lambda>x. x \<noteq> c) ?r)"
    using d by simp
  then have "rev ?r = rev (takeWhile (\<lambda>x. x \<noteq> c) ?r @ c # tl (dropWhile (\<lambda>x. x \<noteq> c) ?r))"
    by simp
  then show ?thesis by simp
qed

lemma strrchr_from_last_dot:
  assumes "CHR ''.'' \<in> set p"
  shows "strrchr p (CHR ''.'') = Some (from_last_dot p)"
proof -
  let ?suf = "rev (takeWhile (\<lambda>x. x \<noteq> CHR ''.'') (rev p))"
  have "CHR ''.'' \<notin> set ?suf"
    using set_takeWhileD [of "CHR ''.''" "\<lambda>x. x \<noteq> CHR ''.''" "rev p"] by auto
  then have "strrchr (rev (tl (dropWhile (\<lambda>x. x \<noteq> CHR ''.'') (rev p))) @ CHR ''.'' # ?suf) (CHR ''.'')
      = Some (CHR ''.'' # ?suf)"
    by (rule strrchr_append_last)
  then show ?thesis
    using split_at_last [OF assms] by (simp add: from_last_dot_def)
qed

text \<open>
  C2. For every path, \<open>get_content_type\<close> returns \<open>text/plain\<close> when the path has no
  dot; otherwise it looks the substring from the last dot onward up in the fixed table,
  case-sensitively, and returns the entry, or \<open>text/plain\<close> when there is none. The
  function is total and reads nothing but its argument.
\<close>

theorem get_content_type_table: "get_content_type p = mime_spec p"
proof (cases "CHR ''.'' \<in> set p")
  case True
  then show ?thesis
    by (simp add: get_content_type_def mime_spec_def strrchr_from_last_dot mime_table_def)
next
  case False
  then have "strrchr p (CHR ''.'') = None"
    by (simp add: strrchr_None)
  with False show ?thesis
    by (simp add: get_content_type_def mime_spec_def)
qed

text \<open>
  The table at work: a listed extension, the comparison being case-sensitive, an unlisted
  extension, no extension, a dot in a directory name only, and the last of several dots.
\<close>

lemma get_content_type_examples:
  "get_content_type ''./f.html'' = ''text/html''"
  "get_content_type ''./f.HTML'' = ''text/plain''"
  "get_content_type ''./f.xyz'' = ''text/plain''"
  "get_content_type ''./f'' = ''text/plain''"
  "get_content_type ''./v1.2/notes'' = ''text/plain''"
  "get_content_type ''./app.min.js'' = ''application/javascript''"
  "get_content_type ''./photo.jpeg'' = ''image/jpeg''"
  by (simp_all add: get_content_type_def)

subsection \<open>Formatting and the response framer\<close>

lemma vformat_header:
  "vformat Plain header_format [IntArg c, StrArg t, StrArg ct, SizeArg n] = header_block c t ct n"
  by (simp add: header_format_def header_block_def CRLF_def CR_def LF_def)

lemma length_dec: "n < 10 ^ k \<Longrightarrow> 0 < k \<Longrightarrow> length (dec n) \<le> k"
proof (induction n arbitrary: k rule: dec.induct)
  case (1 n)
  show ?case
  proof (cases "n < 10")
    case True
    with 1(3) show ?thesis by (simp add: dec.simps [of n])
  next
    case False
    from 1(3) obtain k' where k: "k = Suc k'" by (cases k) auto
    with 1(2) False have k'pos: "0 < k'" by (cases k') auto
    from 1(2) k have "n div 10 < 10 ^ k'" by (simp add: less_mult_imp_div_less mult.commute)
    with 1(1) [OF False _ k'pos] have "length (dec (n div 10)) \<le> k'" by simp
    with False k show ?thesis by (simp add: dec.simps [of n])
  qed
qed

lemma length_fmt_zu: "length (fmt_zu n) \<le> 20"
proof -
  have "unat n < 2 ^ 64" using unsigned_less [of n] by simp
  also have "(2::nat) ^ 64 < 10 ^ 20" by simp
  finally show ?thesis unfolding fmt_zu_def by (intro length_dec) simp_all
qed

lemma digit_cases: "d < 10 \<Longrightarrow> isdigit (digit d) \<and> of_char (digit d) = 48 + d"
proof -
  assume "d < 10"
  then have "d \<in> {0, 1, 2, 3, 4, 5, 6, 7, 8, 9}" by auto
  then show ?thesis by (auto simp: digit_def isdigit_def)
qed

lemma dec_value_snoc: "dec_value (ds @ [c]) = 10 * dec_value ds + (of_char c - 48)"
  by (simp add: dec_value_def)

lemma dec_value_dec: "dec_value (dec n) = n"
proof (induction n rule: dec.induct)
  case (1 n)
  show ?case
  proof (cases "n < 10")
    case True
    then show ?thesis using digit_cases [of n]
      by (simp add: dec.simps [of n] dec_value_def)
  next
    case False
    have "n mod 10 < 10" by simp
    then have "of_char (digit (n mod 10)) = 48 + n mod 10" using digit_cases by blast
    with 1 [OF False] False show ?thesis
      by (simp add: dec.simps [of n] dec_value_snoc)
  qed
qed

lemma dec_digits: "\<forall>c\<in>set (dec n). isdigit c"
proof (induction n rule: dec.induct)
  case (1 n)
  show ?case
  proof (cases "n < 10")
    case True
    then show ?thesis using digit_cases [of n] by (simp add: dec.simps [of n])
  next
    case False
    have "n mod 10 < 10" by simp
    then have "isdigit (digit (n mod 10))" using digit_cases by blast
    with 1 [OF False] False show ?thesis
      by (simp add: dec.simps [of n])
  qed
qed

lemma fmt_d_literals:
  "fmt_d 200 = ''200''" "fmt_d 404 = ''404''" "fmt_d 500 = ''500''" "fmt_d 501 = ''501''"
  by (simp_all add: fmt_d_def dec.simps digit_def)

lemma length_get_content_type: "length (get_content_type p) \<le> 22"
  by (simp add: get_content_type_def split: option.splits)

lemma length_fmt_d: "length (fmt_d c) \<le> 11"
proof -
  have lo: "- (2 ^ 31) \<le> sint c" using sint_ge [of c] by simp
  have hi: "sint c < 2 ^ 31" using sint_lt [of c] by simp
  have p: "(2::nat) ^ 31 < 10 ^ 10" by simp
  show ?thesis
  proof (cases "sint c < 0")
    case True
    with lo have "nat (- sint c) \<le> 2 ^ 31" by simp
    with p have "nat (- sint c) < 10 ^ 10" by linarith
    then have "length (dec (nat (- sint c))) \<le> 10" by (rule length_dec) simp
    with True show ?thesis by (simp add: fmt_d_def)
  next
    case False
    with hi have "nat (sint c) < 2 ^ 31" by simp
    with p have "nat (sint c) < 10 ^ 10" by linarith
    then have "length (dec (nat (sint c))) \<le> 10" by (rule length_dec) simp
    with False show ?thesis by (simp add: fmt_d_def)
  qed
qed

lemma length_header_block:
  "length (header_block c t ct n) = 67 + length (fmt_d c) + length t + length ct + length (fmt_zu n)"
  by (simp add: header_block_def CRLF_def)

lemma snprintf_header:
  assumes "length (header_block c t ct n) < BUFFER_SIZE"
  shows "snprintf BUFFER_SIZE header_format [IntArg c, StrArg t, StrArg ct, SizeArg n]
           = (header_block c t ct n @ [NUL], length (header_block c t ct n))"
proof -
  from assms have "length (header_block c t ct n) \<le> BUFFER_SIZE - 1" by simp
  then have "take (BUFFER_SIZE - 1) (header_block c t ct n) = header_block c t ct n"
    by (rule take_all)
  then show ?thesis
    unfolding snprintf_def vformat_header Let_def by simp
qed

lemma send_response_ok:
  assumes fits: "length (header_block c t ct n) < BUFFER_SIZE"
    and body: "case body of None \<Rightarrow> True | Some b \<Rightarrow> unat n \<le> length b"
  shows "send_response c t ct body n =
           Inr (header_block c t ct n #
                (case body of None \<Rightarrow> [] | Some b \<Rightarrow> if 0 < n then [take (unat n) b] else []))"
proof -
  let ?h = "header_block c t ct n"
  have w: "write_bytes (?h @ [NUL]) (length ?h) = Inr ?h"
    by (simp add: write_bytes_def)
  show ?thesis
  proof (cases body)
    case None
    then show ?thesis
      by (simp add: send_response_def snprintf_header [OF fits] w)
  next
    case (Some b)
    with body have "write_bytes b (unat n) = Inr (take (unat n) b)"
      by (simp add: write_bytes_def)
    with Some show ?thesis
      by (simp add: send_response_def snprintf_header [OF fits] w)
  qed
qed

lemma send_response_http:
  assumes "length reason + length ctype \<le> 8000" and "length body < 2 ^ 64"
  shows "send_response code reason ctype (Some body) (of_nat (length body))
           = Inr (http_response code reason ctype body)"
proof -
  let ?n = "of_nat (length body) :: 64 word"
  have u: "unat ?n = length body"
    using assms(2) by (intro of_nat_inverse [OF refl]) simp
  have "length (header_block code reason ctype ?n) < BUFFER_SIZE"
    using assms(1) length_fmt_d [of code] length_fmt_zu [of ?n]
    by (simp add: length_header_block BUFFER_SIZE_def)
  moreover have "0 < ?n \<longleftrightarrow> body \<noteq> []"
    using u by (simp add: word_less_nat_alt)
  ultimately show ?thesis
    using send_response_ok [of code reason ctype ?n "Some body"] u
    by (simp add: http_response_def)
qed

subsection \<open>The file loader\<close>

lemma length_fread: "length (fread (fresh_block g n) n file) = unat n"
  by (simp add: fread_def fresh_block_def Let_def)

lemma fread_whole: "length file = unat n \<Longrightarrow> fread (fresh_block g n) n file = file"
  by (simp add: fread_def fresh_block_def Let_def)

lemma send_response_file:
  assumes "length body = unat n"
  shows "send_response 200 ''OK'' (get_content_type p) (Some body) n
           = Inr (http_response 200 ''OK'' (get_content_type p) body)"
proof -
  have "length body < 2 ^ 64" using assms unsigned_less [of n] by simp
  moreover have "length ''OK'' + length (get_content_type p) \<le> 8000"
    using length_get_content_type [of p] by simp
  ultimately show ?thesis
    using send_response_http [of "''OK''" "get_content_type p" body 200] assms by simp
qed

lemma send_response_pages:
  "send_response 404 ''Not Found'' ''text/html'' (Some not_found) (strlen not_found)
     = Inr (http_response 404 ''Not Found'' ''text/html'' not_found)"
  "send_response 500 ''Internal Server Error'' ''text/html'' (Some error_page) (strlen error_page)
     = Inr (http_response 500 ''Internal Server Error'' ''text/html'' error_page)"
  "send_response 501 ''Not Implemented'' ''text/html'' (Some not_implemented) (strlen not_implemented)
     = Inr (http_response 501 ''Not Implemented'' ''text/html'' not_implemented)"
  unfolding strlen_def
  by (rule send_response_http; simp add: not_found_def error_page_def not_implemented_def)+

lemma send_file_cases:
  "send_file env p =
     (case stat env p of
        None \<Rightarrow> Inr (http_response 404 ''Not Found'' ''text/html'' not_found)
      | Some n \<Rightarrow>
          (case fopen env p of
             None \<Rightarrow> Inr (http_response 500 ''Internal Server Error'' ''text/html'' error_page)
           | Some file \<Rightarrow>
               (case malloc env n of
                  None \<Rightarrow> Inr (http_response 500 ''Internal Server Error'' ''text/html'' error_page)
                | Some g \<Rightarrow>
                    Inr (http_response 200 ''OK'' (get_content_type p)
                           (fread (fresh_block g n) n file)))))"
  by (simp add: send_file_def send_response_pages send_response_file length_fread
      split: option.splits)

subsection \<open>The request parser\<close>

lemma split_ws_skip: "split_ws [] s = split_ws [] (dropWhile isspace s)"
  by (induction s) simp_all

lemma split_ws_token:
  "cur \<noteq> [] \<or> (s \<noteq> [] \<and> \<not> isspace (hd s)) \<Longrightarrow>
   split_ws cur s =
     (cur @ takeWhile (\<lambda>c. \<not> isspace c) s) # split_ws [] (dropWhile (\<lambda>c. \<not> isspace c) s)"
proof (induction s arbitrary: cur)
  case Nil
  then show ?case by simp
next
  case (Cons c cs)
  show ?case
  proof (cases "isspace c")
    case True
    with Cons.prems have "cur \<noteq> []" by simp
    with True show ?thesis by simp
  next
    case False
    have "split_ws (cur @ [c]) cs =
        ((cur @ [c]) @ takeWhile (\<lambda>c. \<not> isspace c) cs)
          # split_ws [] (dropWhile (\<lambda>c. \<not> isspace c) cs)"
      by (rule Cons.IH) simp
    with False show ?thesis by simp
  qed
qed

lemma ws_tokens_unfold:
  "ws_tokens inp =
     (if dropWhile isspace inp = [] then []
      else takeWhile (\<lambda>c. \<not> isspace c) (dropWhile isspace inp)
             # ws_tokens (dropWhile (\<lambda>c. \<not> isspace c) (dropWhile isspace inp)))"
proof (cases "dropWhile isspace inp = []")
  case True
  have "split_ws [] inp = split_ws [] (dropWhile isspace inp)"
    by (rule split_ws_skip)
  then have "split_ws [] inp = []"
    unfolding True by simp
  then show ?thesis
    unfolding ws_tokens_def True by simp
next
  case False
  then have "\<not> isspace (hd (dropWhile isspace inp))"
    using hd_dropWhile [of isspace inp] by simp
  with False have "split_ws [] (dropWhile isspace inp) =
      ([] @ takeWhile (\<lambda>c. \<not> isspace c) (dropWhile isspace inp))
        # split_ws [] (dropWhile (\<lambda>c. \<not> isspace c) (dropWhile isspace inp))"
    by (intro split_ws_token) simp
  with False show ?thesis
    using split_ws_skip [of inp] by (simp add: ws_tokens_def)
qed

lemma scan_s_tokens:
  "scan_s cap inp =
     (case ws_tokens inp of
        [] \<Rightarrow> Inr None
      | tok # _ \<Rightarrow>
          if cap < length tok + 1 then Inl BufferOverflow
          else Inr (Some (tok, dropWhile (\<lambda>c. \<not> isspace c) (dropWhile isspace inp))))"
  by (subst ws_tokens_unfold) (simp add: scan_s_def Let_def)

lemma ws_tokens_rest:
  "ws_tokens inp = tok # ts \<Longrightarrow>
   ws_tokens (dropWhile (\<lambda>c. \<not> isspace c) (dropWhile isspace inp)) = ts"
  by (subst (asm) ws_tokens_unfold) (simp split: if_splits)

lemma scan_s_bound: "scan_s cap inp = Inr (Some (tok, rest)) \<Longrightarrow> length tok < cap"
  by (auto simp: scan_s_def Let_def split: if_splits)

lemma sscanf_request_bounds:
  assumes "sscanf_request request = Inr (Some m, Some p, Some v)"
  shows "length m < 16 \<and> length p < 256 \<and> length v < 16"
proof -
  from assms obtain r1 r2 r3 where
    "scan_s 16 (c_str request) = Inr (Some (m, r1))"
    "scan_s 256 r1 = Inr (Some (p, r2))"
    "scan_s 16 r2 = Inr (Some (v, r3))"
    by (auto simp: sscanf_request_def split: sum.splits option.splits)
  then show ?thesis
    using scan_s_bound by blast
qed

lemma sscanf_request_tokens:
  assumes "ws_tokens (c_str buf) = t1 # t2 # t3 # ts"
    and "length t1 < 16" and "length t2 < 256" and "length t3 < 16"
  shows "sscanf_request buf = Inr (Some t1, Some t2, Some t3)"
proof -
  let ?r1 = "dropWhile (\<lambda>c. \<not> isspace c) (dropWhile isspace (c_str buf))"
  let ?r2 = "dropWhile (\<lambda>c. \<not> isspace c) (dropWhile isspace ?r1)"
  have s1: "scan_s 16 (c_str buf) = Inr (Some (t1, ?r1))"
    using assms(1,2) by (simp add: scan_s_tokens)
  have w1: "ws_tokens ?r1 = t2 # t3 # ts"
    using assms(1) by (rule ws_tokens_rest)
  then have s2: "scan_s 256 ?r1 = Inr (Some (t2, ?r2))"
    using assms(3) by (simp add: scan_s_tokens)
  have "ws_tokens ?r2 = t3 # ts"
    using w1 by (rule ws_tokens_rest)
  then have s3: "scan_s 16 ?r2 =
      Inr (Some (t3, dropWhile (\<lambda>c. \<not> isspace c) (dropWhile isspace ?r2)))"
    using assms(4) by (simp add: scan_s_tokens)
  show ?thesis
    by (simp add: sscanf_request_def s1 s2 s3)
qed

subsection \<open>The router\<close>

lemma build_filepath_ok:
  "length path < 256 \<Longrightarrow>
   build_filepath path = Inr (if path = ''/'' then ''./index.html'' else ''.'' @ path)"
  by (simp add: build_filepath_def strcat_def)

lemma handle_request_parsed:
  assumes "sscanf_request request = Inr (Some m, Some p, Some v)"
  shows "handle_request env request =
           (if m \<noteq> ''GET''
            then Inr (http_response 501 ''Not Implemented'' ''text/html'' not_implemented)
            else send_file env (if p = ''/'' then ''./index.html'' else ''.'' @ p))"
proof -
  from assms have "length p < 256" by (simp add: sscanf_request_bounds)
  then have "build_filepath p = Inr (if p = ''/'' then ''./index.html'' else ''.'' @ p)"
    by (rule build_filepath_ok)
  with assms show ?thesis
    by (simp add: handle_request_def send_response_pages)
qed

lemma handle_request_Inr:
  assumes "handle_request env request = Inr out"
  obtains m p v where "sscanf_request request = Inr (Some m, Some p, Some v)"
  using assms
  by (auto simp: handle_request_def split: sum.splits option.splits)

subsection \<open>The responses of \<open>send_file\<close> and the \<open>Content-Length\<close> field\<close>

lemma body_of_http_response: "concat (tl (http_response c r ct body)) = body"
  by (simp add: http_response_def)

lemma get_content_type_nonempty: "get_content_type p \<noteq> []"
  by (simp add: get_content_type_def split: option.splits)

lemma send_file_result:
  obtains
    (missing) "send_file env p = Inr (http_response 404 ''Not Found'' ''text/html'' not_found)"
  | (unreadable)
      "send_file env p = Inr (http_response 500 ''Internal Server Error'' ''text/html'' error_page)"
  | (found) n bs g where "stat env p = Some n" and "fopen env p = Some bs"
      and "malloc env n = Some g"
      and "send_file env p =
             Inr (http_response 200 ''OK'' (get_content_type p) (fread (fresh_block g n) n bs))"
proof (cases "stat env p")
  case None
  then show ?thesis using missing by (simp add: send_file_cases)
next
  case (Some n)
  note st = this
  show ?thesis
  proof (cases "fopen env p")
    case None
    with st show ?thesis using unreadable by (simp add: send_file_cases)
  next
    case (Some bs)
    note fo = this
    show ?thesis
    proof (cases "malloc env n")
      case None
      with st fo show ?thesis using unreadable by (simp add: send_file_cases)
    next
      case (Some g)
      with st fo show ?thesis using found [of n bs g] by (simp add: send_file_cases)
    qed
  qed
qed

lemma content_length_http_response:
  assumes "length body < 2 ^ 64"
  shows "\<exists>pre ds. hd (http_response c r ct body)
            = pre @ ''Content-Length: '' @ ds @ CRLF @ ''Connection: close'' @ CRLF @ CRLF
          \<and> (\<forall>x\<in>set ds. isdigit x)
          \<and> dec_value ds = length (concat (tl (http_response c r ct body)))"
proof -
  let ?n = "of_nat (length body) :: 64 word"
  let ?pre = "''HTTP/1.1 '' @ fmt_d c @ '' '' @ r @ CRLF @ ''Content-Type: '' @ ct @ CRLF"
  have "unat ?n = length body"
    using assms by (intro of_nat_inverse [OF refl]) simp
  then have v: "dec_value (fmt_zu ?n) = length body"
    by (simp add: fmt_zu_def dec_value_dec)
  have h: "hd (http_response c r ct body)
      = ?pre @ ''Content-Length: '' @ fmt_zu ?n @ CRLF @ ''Connection: close'' @ CRLF @ CRLF"
    by (simp add: http_response_def header_block_def)
  have d: "\<forall>x\<in>set (fmt_zu ?n). isdigit x"
    unfolding fmt_zu_def by (rule dec_digits)
  from h d v show ?thesis
    unfolding body_of_http_response by blast
qed

lemma content_length_pages:
  "length not_found < 2 ^ 64" "length error_page < 2 ^ 64" "length not_implemented < 2 ^ 64"
  by (simp_all add: not_found_def error_page_def not_implemented_def)

lemma length_fread_less: "length (fread (fresh_block g n) n bs) < 2 ^ 64"
  using unsigned_less [of n] by (simp add: length_fread)

lemma content_length_send_file:
  "\<exists>out pre ds. send_file env filepath = Inr out
      \<and> hd out = pre @ ''Content-Length: '' @ ds @ CRLF @ ''Connection: close'' @ CRLF @ CRLF
      \<and> (\<forall>x\<in>set ds. isdigit x)
      \<and> dec_value ds = length (concat (tl out))"
proof (cases env filepath rule: send_file_result)
  case missing
  then show ?thesis
    using content_length_http_response [OF content_length_pages(1)] by simp
next
  case unreadable
  then show ?thesis
    using content_length_http_response [OF content_length_pages(2)] by simp
next
  case (found n bs g)
  then show ?thesis
    using content_length_http_response [OF length_fread_less] by simp
qed

lemma content_length_handle_request:
  assumes "handle_request env request = Inr out"
  shows "\<exists>pre ds. hd out = pre @ ''Content-Length: '' @ ds @ CRLF @ ''Connection: close'' @ CRLF @ CRLF
      \<and> (\<forall>x\<in>set ds. isdigit x)
      \<and> dec_value ds = length (concat (tl out))"
proof -
  from assms obtain m p v where parsed: "sscanf_request request = Inr (Some m, Some p, Some v)"
    by (rule handle_request_Inr)
  show ?thesis
  proof (cases "m = ''GET''")
    case False
    with parsed assms have "out = http_response 501 ''Not Implemented'' ''text/html'' not_implemented"
      by (simp add: handle_request_parsed)
    then show ?thesis
      using content_length_http_response [OF content_length_pages(3)] by simp
  next
    case True
    with parsed assms
    have "send_file env (if p = ''/'' then ''./index.html'' else ''.'' @ p) = Inr out"
      by (simp add: handle_request_parsed)
    then show ?thesis
      using content_length_send_file [of env "if p = ''/'' then ''./index.html'' else ''.'' @ p"]
      by auto
  qed
qed

text \<open>
  C3. In every response the server emits, through \<open>send_file\<close> for any path and through
  \<open>handle_request\<close> for any request it answers, the header block ends with the line
  \<open>Content-Length: ds\<close>, the \<open>Connection: close\<close> line and the empty line, where
  \<open>ds\<close> is a run of decimal digits whose value is the number of body bytes written after
  the header block.
\<close>

theorem content_length_is_body_length:
  "(\<exists>out pre ds. send_file env filepath = Inr out
      \<and> hd out = pre @ ''Content-Length: '' @ ds @ CRLF @ ''Connection: close'' @ CRLF @ CRLF
      \<and> (\<forall>x\<in>set ds. isdigit x)
      \<and> dec_value ds = length (concat (tl out)))
   \<and> (handle_request env request = Inr out' \<longrightarrow>
        (\<exists>pre ds. hd out' = pre @ ''Content-Length: '' @ ds @ CRLF @ ''Connection: close'' @ CRLF @ CRLF
          \<and> (\<forall>x\<in>set ds. isdigit x)
          \<and> dec_value ds = length (concat (tl out'))))"
  using content_length_send_file content_length_handle_request by blast

lemma sample_get_index:
  "handle_request sample_env ''GET / HTTP/1.1'' = Inr (http_response 200 ''OK'' ''text/html'' ''abc'')"
proof -
  have "sscanf_request ''GET / HTTP/1.1'' = Inr (Some ''GET'', Some ''/'', Some ''HTTP/1.1'')"
    by (simp add: sscanf_request_def scan_s_def c_str_def NUL_def isspace_def)
  then show ?thesis
    by (simp add: handle_request_parsed send_file_cases sample_env_def fread_whole
        get_content_type_def)
qed


theorem content_length_is_body_length_witness:
  "handle_request sample_env ''GET / HTTP/1.1'' = Inr (http_response 200 ''OK'' ''text/html'' ''abc'')
   \<and> (\<exists>pre ds. hd (http_response 200 ''OK'' ''text/html'' ''abc'')
           = pre @ ''Content-Length: '' @ ds @ CRLF @ ''Connection: close'' @ CRLF @ CRLF
         \<and> (\<forall>x\<in>set ds. isdigit x)
         \<and> dec_value ds = length (concat (tl (http_response 200 ''OK'' ''text/html'' ''abc''))))"
  using content_length_is_body_length
    [of sample_env "''./index.html''" "''GET / HTTP/1.1''"
        "http_response 200 ''OK'' ''text/html'' ''abc''"]
    sample_get_index
  by blast

text \<open>
  C1, as amended. For every path \<open>send_file\<close> emits exactly one response: 404 with
  \<open>text/html\<close> and the literal not-found page when \<open>stat\<close> fails; 500 with
  \<open>text/html\<close> and the literal error page when \<open>stat\<close> succeeds and \<open>fopen\<close> or
  \<open>malloc\<close> fails; otherwise 200 OK with the content type \<open>get_content_type\<close> gives
  the path and a body of the size \<open>stat\<close> reported, which is the file's contents
  whenever the opened file delivers exactly that many bytes.
\<close>

theorem send_file_three_way:
  "(stat env p = None \<longrightarrow>
      send_file env p =
        Inr (http_response 404 ''Not Found'' ''text/html''
               ''<html><body><h1>404 Not Found</h1></body></html>''))
   \<and> (stat env p = Some n \<and> (fopen env p = None \<or> malloc env n = None) \<longrightarrow>
      send_file env p =
        Inr (http_response 500 ''Internal Server Error'' ''text/html''
               ''<html><body><h1>500 Internal Server Error</h1></body></html>''))
   \<and> (stat env p = Some n \<and> fopen env p = Some bs \<and> malloc env n = Some g \<longrightarrow>
      (\<exists>body. send_file env p = Inr (http_response 200 ''OK'' (get_content_type p) body)
          \<and> length body = unat n
          \<and> (length bs = unat n \<longrightarrow> body = bs)))"
  by (auto simp: send_file_cases not_found_def error_page_def length_fread fread_whole
      split: option.splits)

theorem send_file_three_way_witness:
  "stat sample_env ''./missing.html'' = None
   \<and> send_file sample_env ''./missing.html'' =
        Inr (http_response 404 ''Not Found'' ''text/html''
               ''<html><body><h1>404 Not Found</h1></body></html>'')
   \<and> stat sample_env ''./secret.txt'' = Some 5 \<and> fopen sample_env ''./secret.txt'' = None
   \<and> send_file sample_env ''./secret.txt'' =
        Inr (http_response 500 ''Internal Server Error'' ''text/html''
               ''<html><body><h1>500 Internal Server Error</h1></body></html>'')
   \<and> stat sample_env ''./index.html'' = Some 3 \<and> fopen sample_env ''./index.html'' = Some ''abc''
   \<and> malloc sample_env 3 = Some stale
   \<and> send_file sample_env ''./index.html'' = Inr (http_response 200 ''OK'' ''text/html'' ''abc'')"
proof -
  have m: "stat sample_env ''./missing.html'' = None"
    by (simp add: sample_env_def)
  have s: "stat sample_env ''./secret.txt'' = Some 5 \<and> fopen sample_env ''./secret.txt'' = None"
    by (simp add: sample_env_def)
  have i: "stat sample_env ''./index.html'' = Some 3 \<and> fopen sample_env ''./index.html'' = Some ''abc''
      \<and> malloc sample_env 3 = Some stale"
    by (simp add: sample_env_def)
  have t: "get_content_type ''./index.html'' = ''text/html''"
    by (simp add: get_content_type_def)
  have l: "length ''abc'' = unat (3 :: 64 word)"
    by simp
  from m s i t l show ?thesis
    using send_file_three_way [of sample_env "''./missing.html''"]
      send_file_three_way [of sample_env "''./secret.txt''" 5]
      send_file_three_way [of sample_env "''./index.html''" 3 "''abc''" stale]
    by auto
qed

text \<open>
  C1 as stated fails where the stream delivers fewer bytes than \<open>stat\<close> reported, as
  for a directory: the result of \<open>fread\<close> is not looked at, and the 200 response carries
  the block as \<open>malloc\<close> returned it, not the (empty) contents delivered.
\<close>

theorem send_file_short_read:
  "stat sample_env ''./docs'' = Some 4 \<and> fopen sample_env ''./docs'' = Some []
   \<and> malloc sample_env 4 = Some stale
   \<and> send_file sample_env ''./docs'' = Inr (http_response 200 ''OK'' ''text/plain'' ''XXXX'')
   \<and> send_file sample_env ''./docs'' \<noteq> Inr (http_response 200 ''OK'' ''text/plain'' [])"
proof -
  have e: "stat sample_env ''./docs'' = Some 4 \<and> fopen sample_env ''./docs'' = Some []
      \<and> malloc sample_env 4 = Some stale"
    by (simp add: sample_env_def)
  have u: "[0..<4] = [0, 1, 2, 3]"
    by (simp add: upt_rec)
  have b: "fread (fresh_block stale 4) 4 [] = ''XXXX''"
    by (simp add: fread_def fresh_block_def stale_def u)
  have t: "get_content_type ''./docs'' = ''text/plain''"
    by (simp add: get_content_type_def)
  have "send_file sample_env ''./docs'' = Inr (http_response 200 ''OK'' ''text/plain'' ''XXXX'')"
    using e by (simp add: send_file_cases b t)
  with e show ?thesis
    by (simp add: http_response_def)
qed

subsection \<open>The header block\<close>

text \<open>
  C6, as amended. For every status code, reason phrase, content type and body (a NULL
  pointer, or a block of at least \<open>body_length\<close> bytes) whose formatted header block is
  shorter than the 8192-byte header buffer, \<open>send_response\<close> writes the header block
  \<open>HTTP/1.1 code reason\<close>, \<open>Content-Type: type\<close>, \<open>Content-Length: length\<close>,
  \<open>Connection: close\<close>, each ended by CR LF, and an empty line, and after it the
  \<open>body_length\<close> body bytes, only when the body is not NULL and \<open>body_length\<close> is
  greater than 0.
\<close>

theorem send_response_header_block:
  assumes "length (header_block code reason ctype n) < BUFFER_SIZE"
    and "case body of None \<Rightarrow> True | Some b \<Rightarrow> unat n \<le> length b"
  shows "send_response code reason ctype body n =
           Inr ((''HTTP/1.1 '' @ fmt_d code @ '' '' @ reason @ CRLF @
                 ''Content-Type: '' @ ctype @ CRLF @
                 ''Content-Length: '' @ fmt_zu n @ CRLF @
                 ''Connection: close'' @ CRLF @
                 CRLF)
                # (case body of None \<Rightarrow> [] | Some b \<Rightarrow> if 0 < n then [take (unat n) b] else []))"
  using send_response_ok [OF assms] by (simp add: header_block_def)

lemma fmt_zu_literals: "fmt_zu 0 = ''0''" "fmt_zu 3 = ''3''"
  by (simp_all add: fmt_zu_def dec.simps digit_def)

theorem send_response_header_block_witness:
  "length (header_block 200 ''OK'' ''text/html'' 3) < BUFFER_SIZE
   \<and> unat (3 :: 64 word) \<le> length ''abc''
   \<and> send_response 200 ''OK'' ''text/html'' (Some ''abc'') 3 =
        Inr [''HTTP/1.1 200 OK'' @ CRLF @
             ''Content-Type: text/html'' @ CRLF @
             ''Content-Length: 3'' @ CRLF @
             ''Connection: close'' @ CRLF @
             CRLF,
             ''abc'']"
proof -
  have f: "length (header_block 200 ''OK'' ''text/html'' 3) < BUFFER_SIZE"
    by (simp add: length_header_block fmt_d_literals fmt_zu_literals BUFFER_SIZE_def)
  have b: "case Some ''abc'' of None \<Rightarrow> True | Some b \<Rightarrow> unat (3 :: 64 word) \<le> length b"
    by simp
  show ?thesis
    using f send_response_header_block [OF f b]
    by (simp add: fmt_d_literals fmt_zu_literals)
qed


lemma send_response_full_buffer:
  assumes "length t = 8112"
  shows "send_response 200 t ''text/html'' None 0 =
     Inr [butlast (''HTTP/1.1 '' @ fmt_d 200 @ '' '' @ t @ CRLF @
                   ''Content-Type: '' @ ''text/html'' @ CRLF @
                   ''Content-Length: '' @ fmt_zu 0 @ CRLF @
                   ''Connection: close'' @ CRLF @
                   CRLF) @ [NUL]]
   \<and> send_response 200 t ''text/html'' None 0 \<noteq>
     Inr [''HTTP/1.1 '' @ fmt_d 200 @ '' '' @ t @ CRLF @
          ''Content-Type: '' @ ''text/html'' @ CRLF @
          ''Content-Length: '' @ fmt_zu 0 @ CRLF @
          ''Connection: close'' @ CRLF @
          CRLF]"
proof -
  let ?h = "header_block 200 t ''text/html'' 0"
  have len: "length ?h = 8192"
    using assms by (simp add: length_header_block fmt_d_literals fmt_zu_literals)
  then have tk: "take (BUFFER_SIZE - 1) ?h = butlast ?h"
    by (simp add: butlast_conv_take BUFFER_SIZE_def)
  have sn: "snprintf BUFFER_SIZE header_format
      [IntArg 200, StrArg t, StrArg ''text/html'', SizeArg 0]
      = (butlast ?h @ [NUL], 8192)"
    unfolding snprintf_def vformat_header Let_def tk len by simp
  have wr: "write_bytes (butlast ?h @ [NUL]) 8192 = Inr (butlast ?h @ [NUL])"
    using len by (simp add: write_bytes_def)
  have eq: "send_response 200 t ''text/html'' None 0 = Inr [butlast ?h @ [NUL]]"
    by (simp add: send_response_def sn wr)
  have "last (butlast ?h @ [NUL]) = NUL"
    by simp
  moreover have "last ?h = LF"
    by (simp add: header_block_def CRLF_def)
  moreover have "NUL \<noteq> LF"
    by (simp add: NUL_def LF_def)
  ultimately have "butlast ?h @ [NUL] \<noteq> ?h"
    by metis
  with eq show ?thesis
    by (simp add: header_block_def)
qed

text \<open>
  C6 as stated fails for a header block that does not fit the buffer. With a reason
  phrase of 8112 bytes the formatted block has 8192 bytes: \<open>snprintf\<close> stores its first
  8191 bytes and NUL, returns 8192, and \<open>write\<close> sends those 8192 bytes, so the block on
  the wire ends in CR NUL instead of CR LF.
\<close>

theorem send_response_truncates:
  "send_response 200 (replicate 8112 (CHR ''A'')) ''text/html'' None 0 =
     Inr [butlast (''HTTP/1.1 '' @ fmt_d 200 @ '' '' @ replicate 8112 (CHR ''A'') @ CRLF @
                   ''Content-Type: '' @ ''text/html'' @ CRLF @
                   ''Content-Length: '' @ fmt_zu 0 @ CRLF @
                   ''Connection: close'' @ CRLF @
                   CRLF) @ [NUL]]
   \<and> send_response 200 (replicate 8112 (CHR ''A'')) ''text/html'' None 0 \<noteq>
     Inr [''HTTP/1.1 '' @ fmt_d 200 @ '' '' @ replicate 8112 (CHR ''A'') @ CRLF @
          ''Content-Type: '' @ ''text/html'' @ CRLF @
          ''Content-Length: '' @ fmt_zu 0 @ CRLF @
          ''Connection: close'' @ CRLF @
          CRLF]"
  by (rule send_response_full_buffer) (rule length_replicate)

subsection \<open>Method check, path resolution and round trip\<close>

lemma sample_requests:
  "sscanf_request ''POST /anything HTTP/1.1'' = Inr (Some ''POST'', Some ''/anything'', Some ''HTTP/1.1'')"
  "sscanf_request ''GET /logo.png HTTP/1.0'' = Inr (Some ''GET'', Some ''/logo.png'', Some ''HTTP/1.0'')"
  "sscanf_request ''GET /../etc/passwd HTTP/1.1'' = Inr (Some ''GET'', Some ''/../etc/passwd'', Some ''HTTP/1.1'')"
  "sscanf_request ''GET / HTTP/1.1'' = Inr (Some ''GET'', Some ''/'', Some ''HTTP/1.1'')"
  by (simp_all add: sscanf_request_def scan_s_def c_str_def NUL_def isspace_def)

text \<open>
  The second component of a run is what the function writes, and a GET that parses makes
  the \<open>strcat\<close> and \<open>stat\<close> calls first.
\<close>

lemma snd_send_file_run: "snd (send_file_run env filepath) = send_file env filepath"
  by (simp add: send_file_run_def send_file_def Let_def split: option.splits)

lemma snd_handle_request_run: "snd (handle_request_run env request) = handle_request env request"
  by (simp add: handle_request_run_def handle_request_def snd_send_file_run
      split: sum.splits option.splits prod.splits)

lemma hd_send_file_run: "hd (fst (send_file_run env filepath)) = Stat filepath"
  by (simp add: send_file_run_def Let_def split: option.splits)

lemma get_request_calls:
  assumes "sscanf_request request = Inr (Some ''GET'', Some target, Some version)"
  shows "\<exists>calls. fst (handle_request_run env request) =
           Strcat (if target = ''/'' then ''/index.html'' else target)
             # Stat (if target = ''/'' then ''./index.html'' else ''.'' @ target) # calls"
proof -
  let ?f = "if target = ''/'' then ''./index.html'' else ''.'' @ target"
  from assms have "length target < 256" by (simp add: sscanf_request_bounds)
  then have b: "build_filepath target = Inr ?f"
    by (rule build_filepath_ok)
  have "\<exists>calls. fst (send_file_run env ?f) = Stat ?f # calls"
    by (simp add: send_file_run_def Let_def split: option.splits)
  then show ?thesis
    using assms b by (simp add: handle_request_run_def)
qed

lemma get_index_calls:
  "handle_request_run sample_env ''GET / HTTP/1.1'' =
     ([Strcat ''/index.html'', Stat ''./index.html'', Fopen ''./index.html'', Malloc 3, Fread 3,
       Fclose, Free],
      Inr (http_response 200 ''OK'' ''text/html'' ''abc''))"
proof -
  have b: "build_filepath ''/'' = Inr ''./index.html''"
    by (simp add: build_filepath_ok)
  have s: "send_file_run sample_env ''./index.html'' =
      ([Stat ''./index.html'', Fopen ''./index.html'', Malloc 3, Fread 3, Fclose, Free],
       send_file sample_env ''./index.html'')"
    by (simp add: send_file_run_def send_file_def sample_env_def Let_def)
  have "send_file sample_env ''./index.html'' = Inr (http_response 200 ''OK'' ''text/html'' ''abc'')"
    by (simp add: send_file_cases sample_env_def fread_whole get_content_type_def)
  with b s show ?thesis
    by (simp add: handle_request_run_def sample_requests(4))
qed

text \<open>
  C4. For every request that parses into a method, a target and a version, where the
  method is not exactly \<open>GET\<close>, \<open>handle_request\<close> emits the 501 response with content
  type \<open>text/html\<close> and the literal not-implemented page, whatever the target, and its
  run makes no call at all: no \<open>strcat\<close> resolves a path, and no \<open>stat\<close>, \<open>fopen\<close>,
  \<open>malloc\<close> or \<open>fread\<close> touches a file.
\<close>

theorem not_get_is_501:
  assumes "sscanf_request request = Inr (Some method, Some target, Some version)"
    and "method \<noteq> ''GET''"
  shows "handle_request env request =
           Inr (http_response 501 ''Not Implemented'' ''text/html''
                  ''<html><body><h1>501 Not Implemented</h1></body></html>'')
         \<and> handle_request_run env request =
           ([], Inr (http_response 501 ''Not Implemented'' ''text/html''
                       ''<html><body><h1>501 Not Implemented</h1></body></html>''))"
proof -
  have "handle_request env request =
      Inr (http_response 501 ''Not Implemented'' ''text/html'' not_implemented)"
    using assms by (simp add: handle_request_parsed)
  moreover have "handle_request_run env request =
      ([], Inr (http_response 501 ''Not Implemented'' ''text/html'' not_implemented))"
    using assms by (simp add: handle_request_run_def send_response_pages)
  ultimately show ?thesis
    by (simp add: not_implemented_def)
qed

theorem not_get_is_501_witness:
  "sscanf_request ''POST /anything HTTP/1.1'' = Inr (Some ''POST'', Some ''/anything'', Some ''HTTP/1.1'')
   \<and> ''POST'' \<noteq> ''GET''
   \<and> handle_request sample_env ''POST /anything HTTP/1.1'' =
        Inr (http_response 501 ''Not Implemented'' ''text/html''
               ''<html><body><h1>501 Not Implemented</h1></body></html>'')
   \<and> handle_request_run sample_env ''POST /anything HTTP/1.1'' =
        ([], Inr (http_response 501 ''Not Implemented'' ''text/html''
                    ''<html><body><h1>501 Not Implemented</h1></body></html>''))"
proof -
  have n: "''POST'' \<noteq> ''GET''" by simp
  show ?thesis
    using sample_requests(1) n not_get_is_501 [OF sample_requests(1) n, of sample_env]
    by simp
qed

text \<open>
  C5. The path built from a target held in \<open>char path[256]\<close> is \<open>./index.html\<close> when
  the target is exactly \<open>/\<close>, and otherwise \<open>.\<close> followed by the target, byte for byte;
  for every request that parses as a GET of a target, that is the path \<open>send_file\<close> is
  called with.
\<close>

theorem resolved_path:
  "(length target < 256 \<longrightarrow>
      build_filepath target = Inr (if target = ''/'' then ''./index.html'' else ''.'' @ target))
   \<and> (sscanf_request request = Inr (Some ''GET'', Some target, Some version) \<longrightarrow>
      build_filepath target = Inr (if target = ''/'' then ''./index.html'' else ''.'' @ target)
      \<and> handle_request env request =
          send_file env (if target = ''/'' then ''./index.html'' else ''.'' @ target))"
  using sscanf_request_bounds [of request "''GET''" target version]
  by (simp add: build_filepath_ok handle_request_parsed)

theorem resolved_path_witness:
  "length ''/../etc/passwd'' < (256 :: nat)
   \<and> build_filepath ''/../etc/passwd'' = Inr ''./../etc/passwd''
   \<and> sscanf_request ''GET / HTTP/1.1'' = Inr (Some ''GET'', Some ''/'', Some ''HTTP/1.1'')
   \<and> build_filepath ''/'' = Inr ''./index.html''
   \<and> handle_request sample_env ''GET / HTTP/1.1'' = send_file sample_env ''./index.html''"
  using resolved_path [of "''/../etc/passwd''" "''GET / HTTP/1.1''" "''HTTP/1.1''" sample_env]
    resolved_path [of "''/''" "''GET / HTTP/1.1''" "''HTTP/1.1''" sample_env]
    sample_requests(4)
  by simp

text \<open>
  C7, as amended. When a GET request's target resolves to a path at which \<open>n\<close> bytes
  are stored (\<open>stat\<close> reports \<open>n\<close>), the file can be opened (the stream delivers those
  \<open>n\<close> bytes) and the read buffer can be allocated, \<open>handle_request\<close> emits a 200
  response whose body is exactly those bytes, for every \<open>n\<close> including 0 and for every
  byte value.
\<close>

theorem round_trip:
  assumes "sscanf_request request = Inr (Some ''GET'', Some target, Some version)"
    and "filepath = (if target = ''/'' then ''./index.html'' else ''.'' @ target)"
    and "stat env filepath = Some n" and "fopen env filepath = Some bytes"
    and "length bytes = unat n" and "malloc env n = Some g"
  shows "handle_request env request =
           Inr (http_response 200 ''OK'' (get_content_type filepath) bytes)
         \<and> concat (tl (http_response 200 ''OK'' (get_content_type filepath) bytes)) = bytes"
proof -
  have "handle_request env request = send_file env filepath"
    using assms(1,2) by (simp add: handle_request_parsed)
  also have "\<dots> = Inr (http_response 200 ''OK'' (get_content_type filepath) bytes)"
    using assms(3-6) by (simp add: send_file_cases fread_whole)
  finally show ?thesis
    by (simp add: body_of_http_response)
qed

theorem round_trip_witness:
  "sscanf_request ''GET /logo.png HTTP/1.0'' = Inr (Some ''GET'', Some ''/logo.png'', Some ''HTTP/1.0'')
   \<and> stat sample_env ''./logo.png'' = Some 3
   \<and> fopen sample_env ''./logo.png'' = Some [CHR 0x00, CHR 0xFF, CHR 0x0A]
   \<and> length [CHR 0x00, CHR 0xFF, CHR 0x0A] = unat (3 :: 64 word)
   \<and> malloc sample_env 3 = Some stale
   \<and> handle_request sample_env ''GET /logo.png HTTP/1.0'' =
        Inr (http_response 200 ''OK'' ''image/png'' [CHR 0x00, CHR 0xFF, CHR 0x0A])
   \<and> concat (tl (http_response 200 ''OK'' ''image/png'' [CHR 0x00, CHR 0xFF, CHR 0x0A]))
        = [CHR 0x00, CHR 0xFF, CHR 0x0A]"
proof -
  have p: "''./logo.png'' = (if ''/logo.png'' = ''/'' then ''./index.html'' else ''.'' @ ''/logo.png'')"
    by simp
  have s: "stat sample_env ''./logo.png'' = Some 3"
    by (simp add: sample_env_def)
  have f: "fopen sample_env ''./logo.png'' = Some [CHR 0x00, CHR 0xFF, CHR 0x0A]"
    by (simp add: sample_env_def)
  have l: "length [CHR 0x00, CHR 0xFF, CHR 0x0A] = unat (3 :: 64 word)"
    by simp
  have m: "malloc sample_env 3 = Some stale"
    by (simp add: sample_env_def)
  have t: "get_content_type ''./logo.png'' = ''image/png''"
    by (simp add: get_content_type_def)
  show ?thesis
    using round_trip [OF sample_requests(2) p s f l m] sample_requests(2) s f l m
    by (simp only: t simp_thms)
qed

text \<open>
  C7 as stated, for every stored file, fails where the read buffer cannot be allocated:
  the three bytes of \<open>index.html\<close> are stored and the stream opens, \<open>malloc\<close> returns
  NULL, and the answer to the GET is the 500 page (lines 131-137), not the file.
\<close>

theorem round_trip_fails_without_memory:
  "sscanf_request ''GET /index.html HTTP/1.1''
     = Inr (Some ''GET'', Some ''/index.html'', Some ''HTTP/1.1'')
   \<and> stat no_memory_env ''./index.html'' = Some 3
   \<and> fopen no_memory_env ''./index.html'' = Some ''abc''
   \<and> handle_request no_memory_env ''GET /index.html HTTP/1.1'' =
        Inr (http_response 500 ''Internal Server Error'' ''text/html''
               ''<html><body><h1>500 Internal Server Error</h1></body></html>'')
   \<and> handle_request no_memory_env ''GET /index.html HTTP/1.1'' \<noteq>
        Inr (http_response 200 ''OK'' ''text/html'' ''abc'')"
proof -
  have p: "sscanf_request ''GET /index.html HTTP/1.1''
      = Inr (Some ''GET'', Some ''/index.html'', Some ''HTTP/1.1'')"
    by (simp add: sscanf_request_def scan_s_def c_str_def NUL_def isspace_def)
  have e: "stat no_memory_env ''./index.html'' = Some 3
      \<and> fopen no_memory_env ''./index.html'' = Some ''abc''
      \<and> malloc no_memory_env 3 = None"
    by (simp add: no_memory_env_def sample_env_def)
  have r: "handle_request no_memory_env ''GET /index.html HTTP/1.1'' =
      Inr (http_response 500 ''Internal Server Error'' ''text/html'' error_page)"
    using p e by (simp add: handle_request_parsed send_file_cases)
  have d: "http_response 500 ''Internal Server Error'' ''text/html'' error_page
      \<noteq> http_response 200 ''OK'' ''text/html'' ''abc''"
    by (simp add: http_response_def header_block_def fmt_d_literals)
  from p e r d show ?thesis
    by (simp add: error_page_def)
qed

text \<open>The empty file: a 200 response that is the header block alone.\<close>

lemma round_trip_empty_file:
  "handle_request sample_env ''GET /empty.txt HTTP/1.1'' =
     Inr [header_block 200 ''OK'' ''text/plain'' 0]"
proof -
  have "sscanf_request ''GET /empty.txt HTTP/1.1''
      = Inr (Some ''GET'', Some ''/empty.txt'', Some ''HTTP/1.1'')"
    by (simp add: sscanf_request_def scan_s_def c_str_def NUL_def isspace_def)
  then show ?thesis
    by (simp add: handle_request_parsed send_file_cases sample_env_def fread_whole
        get_content_type_def http_response_def)
qed

subsection \<open>The parsed fields and the reachable responses\<close>

text \<open>
  C8, as amended. For every buffer whose C string has at least three
  white-space-delimited tokens, the first shorter than 16 bytes, the second shorter than
  256 and the third shorter than 16 (each fits its array together with the terminating
  NUL), \<open>sscanf\<close> stores exactly the first, second and third token as method, target
  and version, unchanged.
\<close>

theorem sscanf_request_first_three_tokens:
  assumes "ws_tokens (c_str buf) = t1 # t2 # t3 # ts"
    and "length t1 < 16" and "length t2 < 256" and "length t3 < 16"
  shows "sscanf_request buf = Inr (Some t1, Some t2, Some t3)"
  using assms by (rule sscanf_request_tokens)

theorem sscanf_request_first_three_tokens_witness:
  "ws_tokens (c_str ''GET  /a%20b.html?x=1 HTTP/1.1 Host: example'')
     = ''GET'' # ''/a%20b.html?x=1'' # ''HTTP/1.1'' # [''Host:'', ''example'']
   \<and> length ''GET'' < (16 :: nat) \<and> length ''/a%20b.html?x=1'' < (256 :: nat)
   \<and> length ''HTTP/1.1'' < (16 :: nat)
   \<and> sscanf_request ''GET  /a%20b.html?x=1 HTTP/1.1 Host: example''
     = Inr (Some ''GET'', Some ''/a%20b.html?x=1'', Some ''HTTP/1.1'')"
proof -
  have t: "ws_tokens (c_str ''GET  /a%20b.html?x=1 HTTP/1.1 Host: example'')
     = ''GET'' # ''/a%20b.html?x=1'' # ''HTTP/1.1'' # [''Host:'', ''example'']"
    by (simp add: ws_tokens_def c_str_def NUL_def isspace_def)
  have l1: "length ''GET'' < (16 :: nat)" by simp
  have l2: "length ''/a%20b.html?x=1'' < (256 :: nat)" by simp
  have l3: "length ''HTTP/1.1'' < (16 :: nat)" by simp
  show ?thesis
    using t l1 l2 l3 sscanf_request_first_three_tokens [OF t l1 l2 l3] by simp
qed

text \<open>
  C8 as stated, with bounds of at most 16, 256 and 16 bytes, fails at a method token of
  exactly 16 bytes: \<open>%s\<close> stores the 16 bytes and the NUL, 17 bytes, into
  \<open>char method[16]\<close>.
\<close>

theorem sscanf_request_overflows_at_16:
  "ws_tokens (c_str ''AAAAAAAAAAAAAAAA / HTTP/1.1'') = [''AAAAAAAAAAAAAAAA'', ''/'', ''HTTP/1.1'']
   \<and> length ''AAAAAAAAAAAAAAAA'' \<le> (16 :: nat) \<and> length ''/'' \<le> (256 :: nat)
   \<and> length ''HTTP/1.1'' \<le> (16 :: nat)
   \<and> sscanf_request ''AAAAAAAAAAAAAAAA / HTTP/1.1'' = Inl BufferOverflow"
  by (simp add: ws_tokens_def sscanf_request_def scan_s_def c_str_def NUL_def isspace_def)

lemma handle_request_result:
  assumes "handle_request env request = Inr out"
  shows "out = http_response 501 ''Not Implemented'' ''text/html'' not_implemented
       \<or> out = http_response 404 ''Not Found'' ''text/html'' not_found
       \<or> out = http_response 500 ''Internal Server Error'' ''text/html'' error_page
       \<or> (\<exists>filepath n bs g. stat env filepath = Some n \<and> fopen env filepath = Some bs
             \<and> malloc env n = Some g
             \<and> out = http_response 200 ''OK'' (get_content_type filepath)
                       (fread (fresh_block g n) n bs))"
proof -
  from assms obtain m p v where parsed: "sscanf_request request = Inr (Some m, Some p, Some v)"
    by (rule handle_request_Inr)
  show ?thesis
  proof (cases "m = ''GET''")
    case False
    with parsed assms show ?thesis
      by (simp add: handle_request_parsed)
  next
    case True
    let ?f = "if p = ''/'' then ''./index.html'' else ''.'' @ p"
    from True parsed assms have sf: "send_file env ?f = Inr out"
      by (simp add: handle_request_parsed)
    show ?thesis
    proof (cases env ?f rule: send_file_result)
      case missing
      with sf show ?thesis by simp
    next
      case unreadable
      with sf show ?thesis by simp
    next
      case (found n bs g)
      with sf have "out = http_response 200 ''OK'' (get_content_type ?f)
          (fread (fresh_block g n) n bs)"
        by simp
      with found(1-3) show ?thesis by blast
    qed
  qed
qed

lemma handle_request_defined:
  assumes "sscanf_request request = Inr (Some m, Some p, Some v)"
  shows "\<exists>out. handle_request env request = Inr out"
proof (cases "m = ''GET''")
  case False
  with assms show ?thesis by (simp add: handle_request_parsed)
next
  case True
  with assms show ?thesis
    by (cases env "if p = ''/'' then ''./index.html'' else ''.'' @ p" rule: send_file_result)
      (simp_all add: handle_request_parsed)
qed

text \<open>
  C10. A request that parses into method, target and version is always answered, and
  every response \<open>handle_request\<close> emits is one of four: 501 Not Implemented, 404 Not
  Found or 500 Internal Server Error, each with content type \<open>text/html\<close> and its fixed
  literal page, or 200 OK carrying the buffer read from a file that \<open>stat\<close>, \<open>fopen\<close>
  and \<open>malloc\<close> accepted. (A request line with fewer than three tokens, or with a token
  too long for its array, has no defined behaviour.)
\<close>

theorem reachable_responses:
  "(sscanf_request request = Inr (Some m, Some p, Some v) \<longrightarrow>
      (\<exists>out. handle_request env request = Inr out))
   \<and> (handle_request env request = Inr out \<longrightarrow>
        out = http_response 501 ''Not Implemented'' ''text/html''
                ''<html><body><h1>501 Not Implemented</h1></body></html>''
      \<or> out = http_response 404 ''Not Found'' ''text/html''
                ''<html><body><h1>404 Not Found</h1></body></html>''
      \<or> out = http_response 500 ''Internal Server Error'' ''text/html''
                ''<html><body><h1>500 Internal Server Error</h1></body></html>''
      \<or> (\<exists>filepath n bs g. stat env filepath = Some n \<and> fopen env filepath = Some bs
             \<and> malloc env n = Some g
             \<and> out = http_response 200 ''OK'' (get_content_type filepath)
                       (fread (fresh_block g n) n bs)))"
  using handle_request_defined [of request m p v env] handle_request_result [of env request out]
  by (simp add: not_found_def error_page_def not_implemented_def)


theorem reachable_responses_witness:
  "sscanf_request ''GET / HTTP/1.1'' = Inr (Some ''GET'', Some ''/'', Some ''HTTP/1.1'')
   \<and> handle_request sample_env ''GET / HTTP/1.1'' = Inr (http_response 200 ''OK'' ''text/html'' ''abc'')
   \<and> (http_response 200 ''OK'' ''text/html'' ''abc''
          = http_response 501 ''Not Implemented'' ''text/html''
              ''<html><body><h1>501 Not Implemented</h1></body></html>''
      \<or> http_response 200 ''OK'' ''text/html'' ''abc''
          = http_response 404 ''Not Found'' ''text/html''
              ''<html><body><h1>404 Not Found</h1></body></html>''
      \<or> http_response 200 ''OK'' ''text/html'' ''abc''
          = http_response 500 ''Internal Server Error'' ''text/html''
              ''<html><body><h1>500 Internal Server Error</h1></body></html>''
      \<or> (\<exists>filepath n bs g. stat sample_env filepath = Some n
             \<and> fopen sample_env filepath = Some bs \<and> malloc sample_env n = Some g
             \<and> http_response 200 ''OK'' ''text/html'' ''abc''
                 = http_response 200 ''OK'' (get_content_type filepath)
                     (fread (fresh_block g n) n bs)))"
  using reachable_responses
      [of "''GET / HTTP/1.1''" "''GET''" "''/''" "''HTTP/1.1''" sample_env
          "http_response 200 ''OK'' ''text/html'' ''abc''"]
    sample_requests(4) sample_get_index
  by blast

lemma send_file_content_type:
  "\<exists>code reason ctype body. send_file env filepath = Inr (http_response code reason ctype body)
      \<and> ctype \<noteq> []
      \<and> (code = 200 \<and> ctype = get_content_type filepath \<or> ctype = ''text/html'')"
proof (cases env filepath rule: send_file_result)
  case missing
  then show ?thesis by (intro exI [of _ 404] exI [of _ "''text/html''"] exI) simp
next
  case unreadable
  then show ?thesis by (intro exI [of _ 500] exI [of _ "''text/html''"] exI) simp
next
  case (found n bs g)
  then show ?thesis
    using get_content_type_nonempty [of filepath] by blast
qed

lemma handle_request_content_type:
  assumes "handle_request env request = Inr out"
  shows "\<exists>code reason ctype body. out = http_response code reason ctype body
      \<and> ctype \<noteq> []
      \<and> ((\<exists>filepath. code = 200 \<and> ctype = get_content_type filepath) \<or> ctype = ''text/html'')"
proof -
  have h: "''text/html'' \<noteq> []" by simp
  from handle_request_result [OF assms] show ?thesis
  proof (elim disjE exE conjE)
    assume "out = http_response 501 ''Not Implemented'' ''text/html'' not_implemented"
    with h show ?thesis by blast
  next
    assume "out = http_response 404 ''Not Found'' ''text/html'' not_found"
    with h show ?thesis by blast
  next
    assume "out = http_response 500 ''Internal Server Error'' ''text/html'' error_page"
    with h show ?thesis by blast
  next
    fix filepath n bs g
    assume "out = http_response 200 ''OK'' (get_content_type filepath)
        (fread (fresh_block g n) n bs)"
    then show ?thesis
      using get_content_type_nonempty [of filepath] by blast
  qed
qed

text \<open>
  C9. \<open>get_content_type\<close> never returns the empty string, and every response the
  server emits, from \<open>send_file\<close> for any path and from \<open>handle_request\<close> for any
  request it answers, carries a non-empty content type: the one \<open>get_content_type\<close>
  gives, on a 200 response, and \<open>text/html\<close> otherwise.
\<close>

theorem content_type_nonempty:
  "get_content_type filepath \<noteq> []
   \<and> (\<exists>code reason ctype body.
        send_file env filepath = Inr (http_response code reason ctype body)
        \<and> ctype \<noteq> []
        \<and> (code = 200 \<and> ctype = get_content_type filepath \<or> ctype = ''text/html''))
   \<and> (handle_request env request = Inr out \<longrightarrow>
        (\<exists>code reason ctype body. out = http_response code reason ctype body
          \<and> ctype \<noteq> []
          \<and> ((\<exists>filepath. code = 200 \<and> ctype = get_content_type filepath)
              \<or> ctype = ''text/html'')))"
  using get_content_type_nonempty send_file_content_type handle_request_content_type
  by blast

theorem content_type_nonempty_witness:
  "handle_request sample_env ''GET / HTTP/1.1'' = Inr (http_response 200 ''OK'' ''text/html'' ''abc'')
   \<and> get_content_type ''./notes'' \<noteq> []
   \<and> (\<exists>code reason ctype body.
        http_response 200 ''OK'' ''text/html'' ''abc'' = http_response code reason ctype body
        \<and> ctype \<noteq> []
        \<and> ((\<exists>filepath. code = 200 \<and> ctype = get_content_type filepath)
            \<or> ctype = ''text/html''))"
  using content_type_nonempty
      [of "''./notes''" sample_env "''GET / HTTP/1.1''"
          "http_response 200 ''OK'' ''text/html'' ''abc''"]
    sample_get_index
  by blast

end
